theory Spec2Isabelle
  imports Complex_Main "HOL-Library.Signed_Division" "HOL-Library.Log_Nat"
begin

section \<open>Go values used by clock.go\<close>

text \<open>
  The repository holds three generations of \<^verbatim>\<open>clock.go\<close>: the current one (with the
  configuration file, the statistics worker and the notification line), the 2025-2026
  one, and the first one (2025).  Unless a name carries the suffix \<open>_2025\<close>, a definition
  below embeds the current generation.  The 2025-2026 generation has the same code for
  every function embedded here except \<^verbatim>\<open>layout\<close> (two rows for the footer),
  \<^verbatim>\<open>CenterDate\<close> (two markers) and the key handler (no check of the index).

  Go's \<^verbatim>\<open>int\<close> is embedded as \<^typ>\<open>int\<close>: every quantity below is a terminal
  dimension, a clock field or a product of two of them, far from the 64-bit limits.
  Go's \<^verbatim>\<open>/\<close> and \<^verbatim>\<open>%\<close> truncate towards zero: they are \<open>sdiv\<close> and \<open>smod\<close>.
  A Go \<^verbatim>\<open>string\<close> is a sequence of bytes, as \<^typ>\<open>string\<close> is; a character outside
  ASCII is written as its UTF-8 bytes.
\<close>

definition LF :: char where
  "LF = CHR 0x0A"

definition ESC :: char where
  "ESC = CHR 0x1B"

text \<open>Decimal digits of a non-negative number, as \<^verbatim>\<open>%d\<close> and \<^verbatim>\<open>appendInt\<close> print them.\<close>

definition digit_char :: "nat \<Rightarrow> char" where
  "digit_char d = ''0123456789'' ! d"

function nat_digits :: "nat \<Rightarrow> string" where
  "nat_digits n = (if n < 10 then [digit_char n] else nat_digits (n div 10) @ [digit_char (n mod 10)])"
  by pat_completeness auto
termination
  by (relation "measure id") auto

declare nat_digits.simps [simp del]

text \<open>\<^verbatim>\<open>%d\<close> of \<^verbatim>\<open>fmt.Sprintf\<close>.\<close>

definition itoa :: "int \<Rightarrow> string" where
  "itoa i = (if i < 0 then CHR ''-'' # nat_digits (nat (- i)) else nat_digits (nat i))"

text \<open>
  \<^verbatim>\<open>appendInt(b, x, width)\<close> of package \<^verbatim>\<open>time\<close>: the sign, then the digits padded with
  zeros on the left up to \<open>width\<close>.
\<close>

definition appendInt :: "int \<Rightarrow> nat \<Rightarrow> string" where
  "appendInt x width =
     (let ds = nat_digits (nat \<bar>x\<bar>)
      in (if x < 0 then ''-'' else '''') @ replicate (width - length ds) CHR ''0'' @ ds)"

subsection \<open>An instant in a location\<close>

text \<open>
  \<^verbatim>\<open>time.Weekday\<close> and \<^verbatim>\<open>time.Month\<close> are integer types with named constants; the
  clock only reads them from a \<^verbatim>\<open>time.Time\<close>, which yields the named values only.
\<close>

datatype weekday = Sunday | Monday | Tuesday | Wednesday | Thursday | Friday | Saturday

fun weekday_int :: "weekday \<Rightarrow> int" where
  "weekday_int Sunday = 0"
| "weekday_int Monday = 1"
| "weekday_int Tuesday = 2"
| "weekday_int Wednesday = 3"
| "weekday_int Thursday = 4"
| "weekday_int Friday = 5"
| "weekday_int Saturday = 6"

fun weekday_name :: "weekday \<Rightarrow> string" where
  "weekday_name Sunday = ''Sunday''"
| "weekday_name Monday = ''Monday''"
| "weekday_name Tuesday = ''Tuesday''"
| "weekday_name Wednesday = ''Wednesday''"
| "weekday_name Thursday = ''Thursday''"
| "weekday_name Friday = ''Friday''"
| "weekday_name Saturday = ''Saturday''"

datatype month = January | February | March | April | May | June
  | July | August | September | October | November | December

fun month_int :: "month \<Rightarrow> int" where
  "month_int January = 1"
| "month_int February = 2"
| "month_int March = 3"
| "month_int April = 4"
| "month_int May = 5"
| "month_int June = 6"
| "month_int July = 7"
| "month_int August = 8"
| "month_int September = 9"
| "month_int October = 10"
| "month_int November = 11"
| "month_int December = 12"

fun month_name :: "month \<Rightarrow> string" where
  "month_name January = ''January''"
| "month_name February = ''February''"
| "month_name March = ''March''"
| "month_name April = ''April''"
| "month_name May = ''May''"
| "month_name June = ''June''"
| "month_name July = ''July''"
| "month_name August = ''August''"
| "month_name September = ''September''"
| "month_name October = ''October''"
| "month_name November = ''November''"
| "month_name December = ''December''"

text \<open>
  What the clock reads from \<^verbatim>\<open>time.Now().In(loc)\<close>: the calendar and wall-clock fields
  of the instant in the view's location.
\<close>

record instant =
  Year :: int
  Month :: month
  Day :: int
  Weekday :: weekday
  Hour :: int
  Minute :: int
  Second :: int

text \<open>The ranges package \<^verbatim>\<open>time\<close> documents for \<^verbatim>\<open>Hour\<close>, \<^verbatim>\<open>Minute\<close> and \<^verbatim>\<open>Second\<close>.\<close>

definition valid_clock :: "instant \<Rightarrow> bool" where
  "valid_clock t \<longleftrightarrow>
     0 \<le> Hour t \<and> Hour t < 24 \<and> 0 \<le> Minute t \<and> Minute t < 60 \<and> 0 \<le> Second t \<and> Second t < 60"

section \<open>Derived indicators\<close>

text \<open>The two indicator strings: a green circle (U+1F7E2) and a black circle (U+26AB).\<close>

definition open_indicator :: string where
  "open_indicator = [CHR 0xF0, CHR 0x9F, CHR 0x9F, CHR 0xA2]"

definition closed_indicator :: string where
  "closed_indicator = [CHR 0xE2, CHR 0x9A, CHR 0xAB]"

definition getBusinessHoursIndicator :: "instant \<Rightarrow> string" where
  "getBusinessHoursIndicator now =
     (let hour = Hour now; weekday = Weekday now
      in if weekday_int weekday \<ge> weekday_int Monday \<and> weekday_int weekday \<le> weekday_int Friday
            \<and> hour \<ge> 9 \<and> hour < 17
         then open_indicator
         else closed_indicator)"

text \<open>The sun (U+1F31E) and the moon (U+1F319).\<close>

definition getDayNightIcon :: "instant \<Rightarrow> string" where
  "getDayNightIcon now =
     (if Hour now \<ge> 6 \<and> Hour now < 18
      then [CHR 0xF0, CHR 0x9F, CHR 0x8C, CHR 0x9E]
      else [CHR 0xF0, CHR 0x9F, CHR 0x8C, CHR 0x99])"

section \<open>The timezone ordering and the swap keys\<close>

record TimezoneConfig =
  Name :: string
  Location :: string

text \<open>
  The globals the key handler touches.  The timer that clears the notification after
  three seconds is real time and is left out.
\<close>

record globals =
  timezones :: "TimezoneConfig list"
  notification :: string

definition showNotification :: "string \<Rightarrow> globals \<Rightarrow> globals" where
  "showNotification msg s = s\<lparr>notification := msg\<rparr>"

text \<open>
  The closure \<^verbatim>\<open>KeyBindings\<close> binds to the key \<open>'0' + idx\<close>, for \<open>idx\<close> from 1 to 6.
  Both sides of the parallel assignment are read before either slot is written.
\<close>

definition swap_key :: "nat \<Rightarrow> globals \<Rightarrow> globals" where
  "swap_key idx s =
     (if idx \<ge> length (timezones s) then s
      else
        let oldTop = Name (timezones s ! 0);
            tzs = (timezones s)[0 := timezones s ! idx, idx := timezones s ! 0]
        in showNotification (''Swapped '' @ oldTop @ '' with '' @ Name (tzs ! 0))
             (s\<lparr>timezones := tzs\<rparr>))"

text \<open>
  \<^verbatim>\<open>SwapTimezones\<close> of the first generation, called as \<^verbatim>\<open>SwapTimezones(g, 0, i + 1)\<close>.
  It checks \<open>idxB\<close> against the length only; any other index out of range panics.
\<close>

datatype panic = IndexOutOfRange | NegativeRepeatCount

definition SwapTimezones :: "'a list \<Rightarrow> int \<Rightarrow> int \<Rightarrow> panic + 'a list" where
  "SwapTimezones tzs idxA idxB =
     (if idxB < int (length tzs) then
        (if 0 \<le> idxA \<and> idxA < int (length tzs) \<and> 0 \<le> idxB
         then Inr (tzs[nat idxA := tzs ! nat idxB, nat idxB := tzs ! nat idxA])
         else Inl IndexOutOfRange)
      else Inr tzs)"

section \<open>Formatting an instant\<close>

text \<open>
  \<^verbatim>\<open>Time.Format\<close> of package \<^verbatim>\<open>time\<close>, for the layout elements whose value is a field of
  \<^typ>\<open>instant\<close>.  The layout is read from the left; at each position the reference
  element that starts there, if any, is replaced by the field it stands for, and any
  other byte is copied.  Left out are the zone elements (\<^verbatim>\<open>MST\<close>, \<^verbatim>\<open>-0700\<close>, \<^verbatim>\<open>Z07\<close>),
  the day of the year (\<^verbatim>\<open>002\<close>), the space-padded elements (\<^verbatim>\<open>_2\<close>) and fractional
  seconds (\<^verbatim>\<open>.000\<close>): none occurs in a layout of clock.go, which are
  \<^verbatim>\<open>03:04 PM\<close>, \<^verbatim>\<open>03 04 PM\<close>, \<^verbatim>\<open>03:04:05 PM\<close>, \<^verbatim>\<open>Mon, Jan 2\<close> and
  \<^verbatim>\<open>Monday, January 2, 2006\<close>.
\<close>

datatype std_chunk =
    stdLongMonth | stdMonth | stdNumMonth | stdZeroMonth
  | stdLongWeekDay | stdWeekDay | stdDay | stdZeroDay
  | stdHour | stdHour12 | stdZeroHour12
  | stdMinute | stdZeroMinute | stdSecond | stdZeroSecond
  | stdLongYear | stdYear | stdPM | stdpm

definition starts_with :: "string \<Rightarrow> string \<Rightarrow> bool" where
  "starts_with p s \<longleftrightarrow> take (length p) s = p"

definition startsWithLowerCase :: "string \<Rightarrow> bool" where
  "startsWithLowerCase s =
     (case s of [] \<Rightarrow> False | c # _ \<Rightarrow> (97::nat) \<le> of_char c \<and> of_char c \<le> (122::nat))"

text \<open>The element that starts the layout, with the number of bytes it takes.\<close>

definition std_chunk_at :: "string \<Rightarrow> (std_chunk \<times> nat) option" where
  "std_chunk_at l =
     (case l of
        [] \<Rightarrow> None
      | c # cs \<Rightarrow>
          if c = CHR ''J'' then
            (if starts_with ''Jan'' l then
               (if starts_with ''January'' l then Some (stdLongMonth, 7)
                else if \<not> startsWithLowerCase (drop 3 l) then Some (stdMonth, 3)
                else None)
             else None)
          else if c = CHR ''M'' then
            (if starts_with ''Mon'' l then
               (if starts_with ''Monday'' l then Some (stdLongWeekDay, 6)
                else if \<not> startsWithLowerCase (drop 3 l) then Some (stdWeekDay, 3)
                else None)
             else None)
          else if c = CHR ''0'' then
            (if starts_with ''01'' l then Some (stdZeroMonth, 2)
             else if starts_with ''02'' l then Some (stdZeroDay, 2)
             else if starts_with ''03'' l then Some (stdZeroHour12, 2)
             else if starts_with ''04'' l then Some (stdZeroMinute, 2)
             else if starts_with ''05'' l then Some (stdZeroSecond, 2)
             else if starts_with ''06'' l then Some (stdYear, 2)
             else None)
          else if c = CHR ''1'' then
            (if starts_with ''15'' l then Some (stdHour, 2) else Some (stdNumMonth, 1))
          else if c = CHR ''2'' then
            (if starts_with ''2006'' l then Some (stdLongYear, 4) else Some (stdDay, 1))
          else if c = CHR ''3'' then Some (stdHour12, 1)
          else if c = CHR ''4'' then Some (stdMinute, 1)
          else if c = CHR ''5'' then Some (stdSecond, 1)
          else if c = CHR ''P'' then
            (if starts_with ''PM'' l then Some (stdPM, 2) else None)
          else if c = CHR ''p'' then
            (if starts_with ''pm'' l then Some (stdpm, 2) else None)
          else None)"

text \<open>The hour on a twelve-hour dial: \<^verbatim>\<open>hr := hour % 12; if hr == 0 { hr = 12 }\<close>.\<close>

definition hour12 :: "instant \<Rightarrow> int" where
  "hour12 t = (let hr = Hour t smod 12 in if hr = 0 then 12 else hr)"

fun format_chunk :: "std_chunk \<Rightarrow> instant \<Rightarrow> string" where
  "format_chunk stdLongMonth t = month_name (Month t)"
| "format_chunk stdMonth t = take 3 (month_name (Month t))"
| "format_chunk stdNumMonth t = appendInt (month_int (Month t)) 0"
| "format_chunk stdZeroMonth t = appendInt (month_int (Month t)) 2"
| "format_chunk stdLongWeekDay t = weekday_name (Weekday t)"
| "format_chunk stdWeekDay t = take 3 (weekday_name (Weekday t))"
| "format_chunk stdDay t = appendInt (Day t) 0"
| "format_chunk stdZeroDay t = appendInt (Day t) 2"
| "format_chunk stdHour t = appendInt (Hour t) 2"
| "format_chunk stdHour12 t = appendInt (hour12 t) 0"
| "format_chunk stdZeroHour12 t = appendInt (hour12 t) 2"
| "format_chunk stdMinute t = appendInt (Minute t) 0"
| "format_chunk stdZeroMinute t = appendInt (Minute t) 2"
| "format_chunk stdSecond t = appendInt (Second t) 0"
| "format_chunk stdZeroSecond t = appendInt (Second t) 2"
| "format_chunk stdLongYear t = appendInt (Year t) 4"
| "format_chunk stdYear t = appendInt (\<bar>Year t\<bar> smod 100) 2"
| "format_chunk stdPM t = (if Hour t \<ge> 12 then ''PM'' else ''AM'')"
| "format_chunk stdpm t = (if Hour t \<ge> 12 then ''pm'' else ''am'')"

text \<open>An element takes at least one byte, the first of which is \<open>c\<close>.\<close>

fun Format :: "string \<Rightarrow> instant \<Rightarrow> string" where
  "Format [] t = []"
| "Format (c # cs) t =
     (case std_chunk_at (c # cs) of
        Some (ch, n) \<Rightarrow> format_chunk ch t @ Format (drop (n - 1) cs) t
      | None \<Rightarrow> c # Format cs t)"

declare Format.simps [simp del]

section \<open>Centering\<close>

text \<open>
  \<^verbatim>\<open>runewidth.StringWidth\<close> belongs to another repository; the centering functions take
  it as the parameter \<open>StringWidth\<close>.  \<^verbatim>\<open>strings.Repeat\<close> is called with a positive
  count here.
\<close>

definition CenterTime :: "(string \<Rightarrow> int) \<Rightarrow> string \<Rightarrow> int \<Rightarrow> string" where
  "CenterTime StringWidth s width =
     (let pad = (width - StringWidth s) sdiv 2
      in if pad > 0 then replicate (nat pad) CHR '' '' @ s else s)"

text \<open>
  \<^verbatim>\<open>strings.NewReplacer(old1, "", old2, "", ...).Replace(s)\<close>: the string is read from the
  left; where one of the old strings starts, the first of them in argument order is
  dropped and reading goes on behind it; any other byte is kept.  (An empty old string
  is treated apart by Go; the clock has none, and \<open>first_match\<close> passes over them.)
\<close>

fun first_match :: "string list \<Rightarrow> string \<Rightarrow> string option" where
  "first_match [] s = None"
| "first_match (old # olds) s =
     (if old \<noteq> [] \<and> starts_with old s then Some old else first_match olds s)"

text \<open>A match is not empty and starts with \<open>c\<close>; the rest of it is dropped from \<open>cs\<close>.\<close>

fun Replace :: "string list \<Rightarrow> string \<Rightarrow> string" where
  "Replace olds [] = []"
| "Replace olds (c # cs) =
     (case first_match olds (c # cs) of
        Some old \<Rightarrow> Replace olds (drop (length old - 1) cs)
      | None \<Rightarrow> c # Replace olds cs)"

declare Replace.simps [simp del]

text \<open>The escape sequences \<^verbatim>\<open>CenterDate\<close> removes before measuring.\<close>

definition style_markers :: "string list" where
  "style_markers = [ESC # ''[1m'', ESC # ''[0m'', ESC # ''[33m'', ESC # ''[32m'', ESC # ''[31m'']"

definition CenterDate :: "(string \<Rightarrow> int) \<Rightarrow> string \<Rightarrow> int \<Rightarrow> string" where
  "CenterDate StringWidth s width =
     (let clean = Replace style_markers s;
          pad = (width - StringWidth clean) sdiv 2
      in if pad > 0 then replicate (nat pad) CHR '' '' @ s else s)"

section \<open>Binary64 arithmetic\<close>

text \<open>
  Go's \<^verbatim>\<open>float64\<close> is IEEE 754 binary64.  A finite binary64 value is a rational number,
  and each operation returns the exact result rounded to the nearest value that has a
  53-bit significand, ties going to the even significand.  \<open>ilog2 x\<close> is the exponent
  of the power of two at or below a positive \<open>x\<close>; below \<open>2 powi (- 1022)\<close> the
  spacing stays \<open>2 powi (- 1074)\<close> (subnormal numbers).  Overflow to infinity is not
  modelled: the progress bar only handles 0 and numbers between \<open>1 / 86400\<close> and the
  width of a view.
\<close>

definition ilog2 :: "rat \<Rightarrow> int" where
  "ilog2 x =
     (if 1 \<le> x then int (floorlog 2 (nat \<lfloor>x\<rfloor>)) - 1
      else
        let k = int (floorlog 2 (nat \<lfloor>1 / x\<rfloor>)) - 1
        in if x * 2 powi k = 1 then - k else - k - 1)"

text \<open>Rounding to the nearest integer, a tie going to the even one.\<close>

definition rne :: "rat \<Rightarrow> int" where
  "rne q =
     (let f = \<lfloor>q\<rfloor>; r = q - of_int f
      in if r < 1 / 2 then f
         else if 1 / 2 < r then f + 1
         else if even f then f else f + 1)"

definition fl64 :: "rat \<Rightarrow> rat" where
  "fl64 x =
     (if x = 0 then 0
      else
        let e = max (ilog2 \<bar>x\<bar> - 52) (- 1074)
        in sgn x * of_int (rne (\<bar>x\<bar> / 2 powi e)) * 2 powi e)"

text \<open>The conversions \<^verbatim>\<open>float64(n)\<close> and \<^verbatim>\<open>int(x)\<close>; the latter drops the fraction.\<close>

definition f64_of_int :: "int \<Rightarrow> rat" where
  "f64_of_int n = fl64 (of_int n)"

definition int_of_f64 :: "rat \<Rightarrow> int" where
  "int_of_f64 x = (if 0 \<le> x then \<lfloor>x\<rfloor> else \<lceil>x\<rceil>)"

section \<open>The day-progress bar\<close>

text \<open>
  \<^verbatim>\<open>getDayProgressBar\<close>, with each local variable of the source as a definition of its
  own, so that the fraction, the text and the two widths can be spoken about.
\<close>

definition secondsElapsed :: "instant \<Rightarrow> rat" where
  "secondsElapsed now = f64_of_int (Hour now * 3600 + Minute now * 60 + Second now)"

definition totalSeconds :: rat where
  "totalSeconds = 86400"

definition percent :: "instant \<Rightarrow> rat" where
  "percent now = fl64 (secondsElapsed now / totalSeconds)"

definition remainingSecs :: "instant \<Rightarrow> int" where
  "remainingSecs now = int_of_f64 (fl64 (totalSeconds - secondsElapsed now))"

definition timeRemaining :: "instant \<Rightarrow> string" where
  "timeRemaining now =
     '' '' @ itoa (remainingSecs now sdiv 3600) @ ''h ''
       @ itoa ((remainingSecs now smod 3600) sdiv 60) @ ''m left''"

definition barWidth :: "instant \<Rightarrow> int \<Rightarrow> int" where
  "barWidth now width =
     (let barWidth = width - 2 - int (length (timeRemaining now))
      in if barWidth < 0 then 0 else barWidth)"

definition fillWidth :: "instant \<Rightarrow> int \<Rightarrow> int" where
  "fillWidth now width = int_of_f64 (fl64 (f64_of_int (barWidth now width) * percent now))"

definition barColor :: "instant \<Rightarrow> string" where
  "barColor now =
     (let color = ESC # ''[32m'';
          color = (if Hour now \<ge> 17 \<and> Hour now < 21 then ESC # ''[33m'' else color);
          color = (if Hour now \<ge> 21 \<or> Hour now < 5 then ESC # ''[31m'' else color)
      in color)"

text \<open>The full block U+2588, three bytes in UTF-8.\<close>

definition block :: string where
  "block = [CHR 0xE2, CHR 0x96, CHR 0x88]"

text \<open>\<^verbatim>\<open>strings.Repeat\<close> panics on a negative count.\<close>

definition Repeat :: "string \<Rightarrow> int \<Rightarrow> panic + string" where
  "Repeat s count =
     (if count < 0 then Inl NegativeRepeatCount else Inr (concat (replicate (nat count) s)))"

definition getDayProgressBar :: "instant \<Rightarrow> int \<Rightarrow> panic + string" where
  "getDayProgressBar now width =
     (case Repeat block (fillWidth now width) of
        Inl e \<Rightarrow> Inl e
      | Inr filled \<Rightarrow>
          (case Repeat '' '' (barWidth now width - fillWidth now width) of
             Inl e \<Rightarrow> Inl e
           | Inr blank \<Rightarrow>
               (let bar = ''['' @ filled @ blank @ '']''
                in Inr (barColor now @ bar @ timeRemaining now @ ESC # ''[0m''))))"

text \<open>
  The number of characters of a UTF-8 string: every byte but the continuation bytes
  \<open>0x80\<close> to \<open>0xBF\<close> starts one.
\<close>

definition rune_count :: "string \<Rightarrow> nat" where
  "rune_count s = length (filter (\<lambda>c. \<not> ((128::nat) \<le> of_char c \<and> of_char c < (192::nat))) s)"

section \<open>The glyph atlas and the art lines\<close>

text \<open>
  The rows of the map \<^verbatim>\<open>digits\<close>, written with \<open>#\<close> where the source has the full
  block; \<open>glyph\<close> puts the three bytes of the block back.
\<close>

definition glyph :: "string \<Rightarrow> string" where
  "glyph row = concat (map (\<lambda>c. if c = CHR ''#'' then block else [c]) row)"

definition digits :: "char \<Rightarrow> string list option" where
  "digits = map_of
     [
       (CHR ''0'', map glyph [''#####'', ''#   #'', ''#   #'', ''#   #'', ''#####'']),
       (CHR ''1'', map glyph [''  #  '', '' ##  '', ''  #  '', ''  #  '', ''#####'']),
       (CHR ''2'', map glyph [''#####'', ''    #'', ''#####'', ''#    '', ''#####'']),
       (CHR ''3'', map glyph [''#####'', ''    #'', ''#####'', ''    #'', ''#####'']),
       (CHR ''4'', map glyph [''#   #'', ''#   #'', ''#####'', ''    #'', ''    #'']),
       (CHR ''5'', map glyph [''#####'', ''#    '', ''#####'', ''    #'', ''#####'']),
       (CHR ''6'', map glyph [''#####'', ''#    '', ''#####'', ''#   #'', ''#####'']),
       (CHR ''7'', map glyph [''#####'', ''    #'', ''    #'', ''    #'', ''    #'']),
       (CHR ''8'', map glyph [''#####'', ''#   #'', ''#####'', ''#   #'', ''#####'']),
       (CHR ''9'', map glyph [''#####'', ''#   #'', ''#####'', ''    #'', ''#####'']),
       (CHR '':'', map glyph [''     '', ''  #  '', ''     '', ''  #  '', ''     '']),
       (CHR ''A'', map glyph [''     '', '' ##  '', ''#  # '', ''#### '', ''#  # '']),
       (CHR ''M'', map glyph [''     '', ''# # #'', ''#####'', ''# # #'', ''#   #'']),
       (CHR ''P'', map glyph [''     '', ''#### '', ''#  # '', ''#### '', ''#    '']),
       (CHR '' '', map glyph [''     '', ''     '', ''     '', ''     '', ''     ''])
     ]"

text \<open>
  \<^verbatim>\<open>PrintTimeASCII\<close> ranges over the runes of its argument.  Every key of \<^verbatim>\<open>digits\<close> is
  an ASCII character, and a byte of a longer rune is none, so ranging over the bytes
  skips and keeps the same places.
\<close>

definition PrintTimeASCII :: "string \<Rightarrow> string list" where
  "PrintTimeASCII t =
     foldl (\<lambda>lines char.
              case digits char of
                None \<Rightarrow> lines
              | Some art \<Rightarrow> map (\<lambda>i. lines ! i @ art ! i @ '' '') [0..<5])
           (replicate 5 []) t"

section \<open>The cell renderer\<close>

text \<open>
  What \<^verbatim>\<open>UpdateViewTime\<close> does to its view, in order.  The view belongs to gocui;
  \<open>width\<close> and \<open>height\<close> are what \<^verbatim>\<open>v.Size()\<close> returned.
\<close>

datatype view_op = Clear | Fprint string | SetCursor int int

text \<open>The variable \<^verbatim>\<open>format\<close>: the layout of the art-mode time.\<close>

definition blink_format :: "instant \<Rightarrow> string" where
  "blink_format now =
     (let format = ''03:04 PM''
      in if Second now smod 2 \<noteq> 0 then ''03 04 PM'' else format)"

text \<open>
  A panic of \<^verbatim>\<open>strings.Repeat\<close> inside \<^verbatim>\<open>getDayProgressBar\<close> would end the program; the
  operations done before it are then not reported.
\<close>

definition UpdateViewTime :: "(string \<Rightarrow> int) \<Rightarrow> instant \<Rightarrow> int \<Rightarrow> int \<Rightarrow> panic + view_op list" where
  "UpdateViewTime StringWidth now width height =
     (let format = blink_format now
      in if height < 8 then
           (case getDayProgressBar now width of
              Inl e \<Rightarrow> Inl e
            | Inr bar \<Rightarrow>
                Inr [Clear,
                     Fprint (LF # CenterDate StringWidth (Format ''03:04:05 PM'' now) width),
                     Fprint (LF # CenterDate StringWidth (Format ''Mon, Jan 2'' now) width),
                     SetCursor 0 (height - 1),
                     Fprint bar])
         else
           (let asciiArt = PrintTimeASCII (Format format now);
                dateStr = ESC # ''[1m'' @ Format ''Monday, January 2, 2006'' now @ ESC # ''[0m''
            in case getDayProgressBar now width of
                 Inl e \<Rightarrow> Inl e
               | Inr bar \<Rightarrow>
                   Inr ([Clear, Fprint [LF]]
                        @ map (\<lambda>line. Fprint (CenterTime StringWidth line width @ [LF])) asciiArt
                        @ [Fprint (CenterDate StringWidth dateStr width @ [LF]),
                           Fprint (CenterDate StringWidth (getBusinessHoursIndicator now) width @ [LF]),
                           SetCursor 0 (height - 1),
                           Fprint bar])))"

subsection \<open>The renderer of the first generation\<close>




section \<open>The grid layout\<close>

text \<open>The arguments of \<^verbatim>\<open>g.SetView(name, x0, y0, x1, y1)\<close>; both corners belong to the view.\<close>

record rect =
  x0 :: int
  y0 :: int
  x1 :: int
  y1 :: int









subsection \<open>Cells and areas\<close>






subsection \<open>Sample data\<close>

text \<open>The timezones the 2025-2026 file starts with.\<close>

definition default_timezones :: "TimezoneConfig list" where
  "default_timezones =
     [\<lparr>Name = ''UTC'', Location = ''UTC''\<rparr>,
      \<lparr>Name = ''PST/DST'', Location = ''America/Los_Angeles''\<rparr>,
      \<lparr>Name = ''GMT'', Location = ''Etc/GMT''\<rparr>,
      \<lparr>Name = ''PHL Time'', Location = ''Asia/Manila''\<rparr>,
      \<lparr>Name = ''CST'', Location = ''America/Chicago''\<rparr>,
      \<lparr>Name = ''MST'', Location = ''America/Denver''\<rparr>,
      \<lparr>Name = ''EST'', Location = ''America/New_York''\<rparr>]"


text \<open>An instant with the given wall clock, on Saturday 31 October 2026.\<close>

definition clock_at :: "int \<Rightarrow> int \<Rightarrow> int \<Rightarrow> instant" where
  "clock_at h m s =
     \<lparr>Year = 2026, Month = October, Day = 31, Weekday = Saturday, Hour = h, Minute = m, Second = s\<rparr>"

text \<open>
  A width function that counts one column for each character: the width of ASCII text
  and of the full block.
\<close>

definition narrow_width :: "string \<Rightarrow> int" where
  "narrow_width s = int (rune_count s)"

section \<open>Business hours\<close>

text \<open>
  C3.  For every instant the business-hours function returns the open indicator exactly
  when the weekday is one of Monday to Friday and the hour is at least 9 and below 17,
  and the closed indicator otherwise; so it returns the closed indicator at hour 17 and,
  at every hour, on Saturday and on Sunday.
\<close>

theorem business_hours_open_iff:
  "(getBusinessHoursIndicator now = open_indicator \<longleftrightarrow>
      Weekday now \<in> {Monday, Tuesday, Wednesday, Thursday, Friday} \<and> 9 \<le> Hour now \<and> Hour now < 17)
   \<and> (getBusinessHoursIndicator now = closed_indicator \<longleftrightarrow>
      \<not> (Weekday now \<in> {Monday, Tuesday, Wednesday, Thursday, Friday} \<and> 9 \<le> Hour now \<and> Hour now < 17))
   \<and> (Hour now = 17 \<longrightarrow> getBusinessHoursIndicator now = closed_indicator)
   \<and> (Weekday now = Saturday \<or> Weekday now = Sunday \<longrightarrow>
        getBusinessHoursIndicator now = closed_indicator)"
  by (cases "Weekday now")
     (simp_all add: getBusinessHoursIndicator_def Let_def open_indicator_def closed_indicator_def)

theorem business_hours_open_iff_witness:
  "getBusinessHoursIndicator
     \<lparr>Year = 2026, Month = October, Day = 31, Weekday = Saturday, Hour = 17, Minute = 0, Second = 0\<rparr>
   = closed_indicator"
  using business_hours_open_iff
    [of "\<lparr>Year = 2026, Month = October, Day = 31, Weekday = Saturday, Hour = 17, Minute = 0, Second = 0\<rparr>"]
  by simp

section \<open>Swapping\<close>

lemma swap_nth:
  assumes "k < length xs" "0 < k"
  shows "length (xs[0 := xs ! k, k := xs ! 0]) = length xs"
    and "xs[0 := xs ! k, k := xs ! 0] ! 0 = xs ! k"
    and "xs[0 := xs ! k, k := xs ! 0] ! k = xs ! 0"
    and "\<forall>j < length xs. j \<noteq> 0 \<and> j \<noteq> k \<longrightarrow> xs[0 := xs ! k, k := xs ! 0] ! j = xs ! j"
proof -
  from assms have ne: "0 < length xs" by linarith
  show "length (xs[0 := xs ! k, k := xs ! 0]) = length xs" by simp
  show "xs[0 := xs ! k, k := xs ! 0] ! 0 = xs ! k"
    using assms ne by (simp add: nth_list_update)
  show "xs[0 := xs ! k, k := xs ! 0] ! k = xs ! 0"
    using assms by (simp add: nth_list_update)
  show "\<forall>j < length xs. j \<noteq> 0 \<and> j \<noteq> k \<longrightarrow> xs[0 := xs ! k, k := xs ! 0] ! j = xs ! j"
    by (simp add: nth_list_update)
qed

text \<open>
  C2.  For an ordering of length at least 1 and a swap target \<open>k\<close>: when \<open>1 \<le> k\<close> and \<open>k\<close>
  is below the length, the key handler and \<^verbatim>\<open>SwapTimezones\<close> both put the old slot \<open>k\<close>
  at index 0 and the old slot 0 at index \<open>k\<close>, and keep the length and every other slot;
  when \<open>k\<close> is at least the length, both leave the ordering as it is (the handler leaves
  the notification too) and \<^verbatim>\<open>SwapTimezones\<close> does not panic.
\<close>

theorem swap_exchanges_focus_and_target:
  assumes "1 \<le> length (timezones s)"
  shows "(1 \<le> k \<and> k < length (timezones s) \<longrightarrow>
            length (timezones (swap_key k s)) = length (timezones s)
          \<and> timezones (swap_key k s) ! 0 = timezones s ! k
          \<and> timezones (swap_key k s) ! k = timezones s ! 0
          \<and> (\<forall>j < length (timezones s). j \<noteq> 0 \<and> j \<noteq> k \<longrightarrow>
                timezones (swap_key k s) ! j = timezones s ! j)
          \<and> SwapTimezones (timezones s) 0 (int k) = Inr (timezones (swap_key k s)))
       \<and> (length (timezones s) \<le> k \<longrightarrow>
            swap_key k s = s \<and> SwapTimezones (timezones s) 0 (int k) = Inr (timezones s))"
proof (intro conjI impI)
  assume k: "1 \<le> k \<and> k < length (timezones s)"
  then have tz: "timezones (swap_key k s) = (timezones s)[0 := timezones s ! k, k := timezones s ! 0]"
    by (simp add: swap_key_def showNotification_def Let_def)
  from k have k': "k < length (timezones s)" "0 < k" by simp_all
  show "length (timezones (swap_key k s)) = length (timezones s)"
    unfolding tz by (rule swap_nth(1) [OF k'])
  show "timezones (swap_key k s) ! 0 = timezones s ! k"
    unfolding tz by (rule swap_nth(2) [OF k'])
  show "timezones (swap_key k s) ! k = timezones s ! 0"
    unfolding tz by (rule swap_nth(3) [OF k'])
  show "\<forall>j < length (timezones s). j \<noteq> 0 \<and> j \<noteq> k \<longrightarrow>
          timezones (swap_key k s) ! j = timezones s ! j"
    unfolding tz by (rule swap_nth(4) [OF k'])
  show "SwapTimezones (timezones s) 0 (int k) = Inr (timezones (swap_key k s))"
    using k assms by (auto simp add: tz SwapTimezones_def)
next
  assume "length (timezones s) \<le> k"
  then show "swap_key k s = s" by (simp add: swap_key_def)
next
  assume "length (timezones s) \<le> k"
  then show "SwapTimezones (timezones s) 0 (int k) = Inr (timezones s)"
    by (simp add: SwapTimezones_def)
qed

theorem swap_exchanges_focus_and_target_witness:
  "1 \<le> length (timezones \<lparr>timezones = default_timezones, notification = []\<rparr>)
   \<and> map Name (timezones (swap_key 3 \<lparr>timezones = default_timezones, notification = []\<rparr>))
       = [''PHL Time'', ''PST/DST'', ''GMT'', ''UTC'', ''CST'', ''MST'', ''EST'']
   \<and> notification (swap_key 3 \<lparr>timezones = default_timezones, notification = []\<rparr>)
       = ''Swapped UTC with PHL Time''
   \<and> SwapTimezones default_timezones 0 3
       = Inr (timezones (swap_key 3 \<lparr>timezones = default_timezones, notification = []\<rparr>))
   \<and> swap_key 7 \<lparr>timezones = default_timezones, notification = []\<rparr>
       = \<lparr>timezones = default_timezones, notification = []\<rparr>
   \<and> SwapTimezones default_timezones 0 7 = Inr default_timezones"
  using swap_exchanges_focus_and_target
      [of "\<lparr>timezones = default_timezones, notification = []\<rparr>" 3]
    swap_exchanges_focus_and_target
      [of "\<lparr>timezones = default_timezones, notification = []\<rparr>" 7]
  by (simp add: default_timezones_def swap_key_def showNotification_def)

section \<open>Rounding to binary64\<close>

text \<open>
  Three facts about \<open>fl64\<close> carry the proofs below: it keeps the sign, it is exact on
  integers below \<open>2 ^ 53\<close>, and above the subnormal range its relative error is at most
  \<open>2 powi (- 53)\<close>.
\<close>

lemma floor_upper: "(x::rat) < of_int \<lfloor>x\<rfloor> + 1"
  using floor_correct [of x] by simp

lemma pow2_less_imp:
  assumes "(2::rat) powi a < 2 powi b"
  shows "a < b"
proof (rule ccontr)
  assume "\<not> a < b"
  then have "b \<le> a" by simp
  then have "(2::rat) powi b \<le> 2 powi a"
    by (rule power_int_increasing) simp
  with assms show False by simp
qed

lemma floorlog2_bounds:
  assumes "0 < n"
  shows "0 < floorlog 2 n" and "2 ^ (floorlog 2 n - 1) \<le> n" and "n < 2 ^ floorlog 2 n"
proof -
  show "0 < floorlog 2 n"
    using assms floorlog_eq_zero_iff [of 2 n] by simp
  show "2 ^ (floorlog 2 n - 1) \<le> n" and "n < 2 ^ floorlog 2 n"
    using floorlog_bounds [of n 2] assms by simp_all
qed

lemma ilog2_bounds:
  assumes "0 < x"
  shows "2 powi (ilog2 x) \<le> x \<and> x < 2 powi (ilog2 x + 1)"
proof (cases "1 \<le> x")
  case True
  define n where "n = nat \<lfloor>x\<rfloor>"
  define F where "F = floorlog 2 n"
  have npos: "0 < n" using True by (simp add: n_def)
  note fb = floorlog2_bounds [OF npos, folded F_def]
  have il: "ilog2 x = int (F - 1)"
    using True fb(1) by (simp add: ilog2_def n_def F_def)
  have il1: "ilog2 x + 1 = int F"
    using il fb(1) by simp
  have "of_int \<lfloor>x\<rfloor> \<le> x" by simp
  then have nx: "of_nat n \<le> x"
    using True by (simp add: n_def)
  have "x < of_int \<lfloor>x\<rfloor> + 1" by (rule floor_upper)
  then have xn: "x < of_nat (n + 1)"
    using True by (simp add: n_def)
  have "(of_nat (2 ^ (F - 1)) :: rat) \<le> of_nat n"
    using fb(2) by (simp only: of_nat_le_iff)
  from order_trans [OF this nx] have lo: "(2::rat) ^ (F - 1) \<le> x" by simp
  have "n + 1 \<le> 2 ^ F" using fb(3) by simp
  then have "(of_nat (n + 1) :: rat) \<le> of_nat (2 ^ F)" by (simp only: of_nat_le_iff)
  from less_le_trans [OF xn this] have hi: "x < 2 ^ F" by simp
  show ?thesis
    unfolding il1 unfolding il using lo hi by simp
next
  case False
  define y where "y = 1 / x"
  define m where "m = nat \<lfloor>y\<rfloor>"
  define F where "F = floorlog 2 m"
  define k where "k = F - 1"
  have x1: "x < 1" using False by simp
  have y1: "1 < y" using assms x1 by (simp add: y_def)
  have mpos: "0 < m" using y1 by (simp add: m_def)
  note fb = floorlog2_bounds [OF mpos, folded F_def]
  have Fk: "F = Suc k" using fb(1) by (simp add: k_def)
  have "of_int \<lfloor>y\<rfloor> \<le> y" by simp
  then have my: "of_nat m \<le> y" using y1 by (simp add: m_def)
  have "y < of_int \<lfloor>y\<rfloor> + 1" by (rule floor_upper)
  then have ym: "y < of_nat (m + 1)" using y1 by (simp add: m_def)
  have "(of_nat (2 ^ k) :: rat) \<le> of_nat m"
    using fb(2) by (simp only: of_nat_le_iff k_def)
  from order_trans [OF this my] have lo: "(2::rat) ^ k \<le> y" by simp
  have "m + 1 \<le> 2 ^ F" using fb(3) by simp
  then have "(of_nat (m + 1) :: rat) \<le> of_nat (2 ^ F)" by (simp only: of_nat_le_iff)
  from less_le_trans [OF ym this] have hi: "y < 2 ^ Suc k" by (simp add: Fk)
  have p2: "(0::rat) < 2 ^ k" by simp
  have xlo: "x * 2 ^ k \<le> 1"
    using lo assms by (simp add: y_def field_simps)
  have xhi: "1 < x * 2 ^ Suc k"
    using hi assms by (simp add: y_def field_simps)
  have ik: "int (floorlog 2 (nat \<lfloor>1 / x\<rfloor>)) - 1 = int k"
    using fb(1) by (simp add: k_def F_def m_def y_def)
  have ilk: "ilog2 x = (if x * 2 ^ k = 1 then - int k else - int k - 1)"
    using False by (simp add: ilog2_def Let_def ik)
  show ?thesis
  proof (cases "x * 2 ^ k = 1")
    case True
    then have il: "ilog2 x = - int k" by (simp add: ilk)
    have xe: "x = 1 / 2 ^ k" using True by (simp add: field_simps)
    have a: "2 powi (- int k) = 1 / (2::rat) ^ k"
      by (simp add: power_int_minus_divide)
    have b: "2 powi (- int k + 1) = 2 / (2::rat) ^ k"
      using power_int_add [of "2::rat" "- int k" 1]
      by (simp only: a) simp
    have g1: "2 powi ilog2 x = 1 / (2::rat) ^ k" by (simp only: il a)
    have g2: "2 powi (ilog2 x + 1) = 2 / (2::rat) ^ k" by (simp only: il b)
    have "1 / (2::rat) ^ k < 2 / 2 ^ k"
      using p2 by (simp add: divide_strict_right_mono)
    then show ?thesis unfolding g1 g2 using xe by simp
  next
    case False
    then have il: "ilog2 x = - int (Suc k)" by (simp add: ilk)
    have il1: "ilog2 x + 1 = - int k" by (simp add: il)
    have a: "2 powi (- int (Suc k)) = 1 / (2::rat) ^ Suc k"
      by (simp only: power_int_minus_divide power_int_of_nat)
    have b: "2 powi (- int k) = 1 / (2::rat) ^ k"
      by (simp only: power_int_minus_divide power_int_of_nat)
    have c: "1 / (2::rat) ^ Suc k \<le> x"
      using xhi by (simp add: field_simps)
    have d: "x < 1 / (2::rat) ^ k"
      using xlo False by (simp add: field_simps)
    show ?thesis unfolding il1 unfolding il a b using c d by simp
  qed
qed

lemma rne_error: "\<bar>of_int (rne q) - q\<bar> \<le> 1 / 2"
proof -
  have "of_int \<lfloor>q\<rfloor> \<le> q" "q < of_int \<lfloor>q\<rfloor> + 1"
    by (simp_all add: floor_upper)
  then show ?thesis
    by (auto simp: rne_def Let_def abs_le_iff)
qed

lemma rne_of_int: "rne (of_int n) = n"
  by (simp add: rne_def)

lemma rne_nonneg: "0 \<le> q \<Longrightarrow> 0 \<le> rne q"
  by (auto simp: rne_def Let_def)

lemma fl64_nonneg: "0 \<le> x \<Longrightarrow> 0 \<le> fl64 x"
  by (auto simp: fl64_def Let_def intro!: mult_nonneg_nonneg rne_nonneg divide_nonneg_nonneg)

lemma fl64_rel_error:
  assumes "2 powi (- 1022) \<le> \<bar>x\<bar>"
  shows "\<bar>fl64 x - x\<bar> \<le> \<bar>x\<bar> * 2 powi (- 53)"
proof -
  define a where "a = \<bar>x\<bar>"
  define L where "L = ilog2 a"
  define e where "e = L - 52"
  define m where "m = a / 2 powi e"
  have apos: "0 < a"
  proof -
    have "(0::rat) < 2 powi (- 1022)" by (rule zero_less_power_int) simp
    then show ?thesis using assms by (simp add: a_def)
  qed
  then have x0: "x \<noteq> 0" by (auto simp: a_def)
  from ilog2_bounds [OF apos] have lb: "2 powi L \<le> a" and ub: "a < 2 powi (L + 1)"
    by (simp_all add: L_def)
  have "(2::rat) powi (- 1022) < 2 powi (L + 1)"
    using assms ub by (simp add: a_def)
  then have "- 1022 < L + 1"
    by (rule pow2_less_imp)
  then have emax: "max e (- 1074) = e" by (simp add: e_def)
  have pe: "(0::rat) < 2 powi e" by (rule zero_less_power_int) simp
  have fl: "fl64 x = sgn x * of_int (rne m) * 2 powi e"
    using x0 emax by (simp add: fl64_def Let_def a_def L_def e_def m_def)
  have xm: "x = sgn x * m * 2 powi e"
    using pe by (simp add: m_def a_def mult_sgn_abs)
  have "fl64 x - x = sgn x * (of_int (rne m) - m) * 2 powi e"
    by (subst fl, subst (2) xm) (simp add: algebra_simps)
  then have "\<bar>fl64 x - x\<bar> = \<bar>of_int (rne m) - m\<bar> * 2 powi e"
    using x0 pe by (simp add: abs_mult abs_sgn_eq)
  also have "\<dots> \<le> 1 / 2 * 2 powi e"
    using rne_error [of m] pe by (intro mult_right_mono) simp_all
  also have "1 / 2 * (2::rat) powi e = 2 powi L * 2 powi (- 53)"
  proof -
    have "(2::rat) powi e = 2 powi L * 2 powi (- 52)"
      using power_int_add [of "2::rat" L "- 52"] by (simp add: e_def)
    then show ?thesis by simp
  qed
  also have "\<dots> \<le> a * 2 powi (- 53)"
    using lb by (intro mult_right_mono) simp_all
  finally show ?thesis by (simp add: a_def)
qed

lemma fl64_of_int_exact:
  assumes "\<bar>n\<bar> < 2 ^ 53"
  shows "fl64 (of_int n) = of_int n"
proof (cases "n = 0")
  case True
  then show ?thesis by (simp add: fl64_def)
next
  case False
  define a :: rat where "a = \<bar>of_int n\<bar>"
  define L where "L = ilog2 a"
  define e where "e = L - 52"
  have a1: "1 \<le> a" using False by (simp add: a_def flip: of_int_abs)
  then have apos: "0 < a" by simp
  from ilog2_bounds [OF apos] have lb: "2 powi L \<le> a" and ub: "a < 2 powi (L + 1)"
    by (simp_all add: L_def)
  have "(2::rat) powi 0 < 2 powi (L + 1)" using a1 ub by simp
  then have "0 < L + 1" by (rule pow2_less_imp)
  then have L0: "0 \<le> L" by simp
  have "a < 2 ^ 53"
  proof -
    have "(of_int \<bar>n\<bar> :: rat) < of_int (2 ^ 53)" using assms by (simp only: of_int_less_iff)
    then show ?thesis by (simp add: a_def)
  qed
  then have "(2::rat) powi L < 2 powi 53" using lb by simp
  then have "L < 53" by (rule pow2_less_imp)
  then have L52: "L \<le> 52" by simp
  have emax: "max e (- 1074) = e" using L0 by (simp add: e_def)
  define j where "j = nat (- e)"
  have ej: "e = - int j" using L52 by (simp add: j_def e_def)
  have pe: "2 powi e = 1 / (2::rat) ^ j"
    by (simp only: ej power_int_minus_divide power_int_of_nat)
  have m: "a / 2 powi e = of_int (\<bar>n\<bar> * 2 ^ j)"
    by (simp add: pe a_def)
  have "fl64 (of_int n) = sgn (of_int n) * of_int (rne (a / 2 powi e)) * 2 powi e"
    using False emax by (simp add: fl64_def Let_def a_def L_def e_def)
  also have "\<dots> = sgn (of_int n) * of_int (\<bar>n\<bar> * 2 ^ j) * (1 / 2 ^ j)"
    by (simp only: m rne_of_int) (simp only: pe)
  also have "\<dots> = sgn (of_int n) * \<bar>of_int n\<bar>"
    by simp
  also have "\<dots> = of_int n" by (simp only: mult_sgn_abs)
  finally show ?thesis .
qed

section \<open>The progress bar stays inside its track\<close>

lemma abs_err_bounds:
  fixes f q u :: rat
  assumes "\<bar>f - q\<bar> \<le> q * u"
  shows "f \<le> q * (1 + u)" and "q * (1 - u) \<le> f"
  using assms by (simp_all add: abs_le_iff algebra_simps)

lemma ulp_bounds:
  "(0::rat) \<le> 2 powi (- 53)" "(2::rat) powi (- 53) \<le> 1 / 2"
  "86399 / 86400 * (1 + 2 powi (- 53)) * (1 + 2 powi (- 53)) * (1 + 2 powi (- 53)) \<le> (1::rat)"
  by simp_all

lemma secondsElapsed_exact:
  assumes "valid_clock now"
  shows "secondsElapsed now = of_int (Hour now * 3600 + Minute now * 60 + Second now)"
    and "0 \<le> Hour now * 3600 + Minute now * 60 + Second now"
    and "Hour now * 3600 + Minute now * 60 + Second now \<le> 86399"
proof -
  from assms show lo: "0 \<le> Hour now * 3600 + Minute now * 60 + Second now"
    and hi: "Hour now * 3600 + Minute now * 60 + Second now \<le> 86399"
    by (simp_all add: valid_clock_def)
  then have "\<bar>Hour now * 3600 + Minute now * 60 + Second now\<bar> < 2 ^ 53" by simp
  then show "secondsElapsed now = of_int (Hour now * 3600 + Minute now * 60 + Second now)"
    unfolding secondsElapsed_def f64_of_int_def by (rule fl64_of_int_exact)
qed

lemma remainingSecs_exact:
  assumes "valid_clock now"
  shows "remainingSecs now = 86400 - (Hour now * 3600 + Minute now * 60 + Second now)"
proof -
  define S where "S = Hour now * 3600 + Minute now * 60 + Second now"
  note se = secondsElapsed_exact [OF assms, folded S_def]
  have "totalSeconds - secondsElapsed now = of_int (86400 - S)"
    by (simp add: totalSeconds_def se(1))
  moreover have "\<bar>86400 - S\<bar> < 2 ^ 53" using se(2,3) by simp
  ultimately have "fl64 (totalSeconds - secondsElapsed now) = of_int (86400 - S)"
    by (simp only: fl64_of_int_exact)
  then have "remainingSecs now = int_of_f64 (of_int (86400 - S))"
    by (simp only: remainingSecs_def)
  also have "\<dots> = 86400 - S"
    using se(3) by (simp only: int_of_f64_def of_int_0_le_iff floor_of_int ceiling_of_int if_cancel)
  finally show ?thesis by (simp only: S_def)
qed

lemma percent_bounds:
  assumes "valid_clock now"
  shows "0 \<le> percent now" and "percent now \<le> 86399 / 86400 * (1 + 2 powi (- 53))"
    and "percent now = 0 \<or> 1 / 172800 \<le> percent now"
proof -
  define S where "S = Hour now * 3600 + Minute now * 60 + Second now"
  define q :: rat where "q = of_int S / 86400"
  note se = secondsElapsed_exact [OF assms, folded S_def]
  have pq: "percent now = fl64 q"
    by (simp add: percent_def se(1) totalSeconds_def q_def)
  define u :: rat where "u = 2 powi (- 53)"
  have u0: "0 \<le> u" and u2: "u \<le> 1 / 2" by (simp_all add: u_def)
  have q0: "0 \<le> q" using se(2) by (simp add: q_def)
  have "(of_int S :: rat) \<le> of_int 86399" using se(3) by (simp only: of_int_le_iff)
  then have q1: "q \<le> 86399 / 86400" by (simp add: q_def)
  show "0 \<le> percent now" unfolding pq using q0 by (rule fl64_nonneg)
  have "percent now \<le> 86399 / 86400 * (1 + 2 powi (- 53))
      \<and> (percent now = 0 \<or> 1 / 172800 \<le> percent now)"
  proof (cases "S = 0")
    case True
    then show ?thesis
      by (simp add: pq q_def fl64_def)
  next
    case False
    then have "1 \<le> S" using se(2) by simp
    then have "(of_int 1 :: rat) \<le> of_int S" by (simp only: of_int_le_iff)
    then have qlo: "1 / 86400 \<le> q" by (simp add: q_def)
    then have "2 powi (- 1022) \<le> \<bar>q\<bar>" by simp
    from fl64_rel_error [OF this] have err: "\<bar>fl64 q - q\<bar> \<le> q * u"
      using q0 by (simp add: u_def)
    note eb = abs_err_bounds [OF err]
    have "fl64 q \<le> q * (1 + u)" by (rule eb(1))
    also have "\<dots> \<le> 86399 / 86400 * (1 + u)"
      using q1 u0 by (intro mult_right_mono) simp_all
    finally have A: "percent now \<le> 86399 / 86400 * (1 + 2 powi (- 53))"
      by (simp only: pq u_def)
    have "q * (1 / 2) \<le> q * (1 - u)"
      using q0 u2 by (intro mult_left_mono) simp_all
    also have "\<dots> \<le> fl64 q" by (rule eb(2))
    finally have "1 / 172800 \<le> fl64 q" using qlo by simp
    then have "percent now = 0 \<or> 1 / 172800 \<le> percent now"
      by (simp only: pq) simp
    with A show ?thesis by simp
  qed
  then show "percent now \<le> 86399 / 86400 * (1 + 2 powi (- 53))"
    and "percent now = 0 \<or> 1 / 172800 \<le> percent now"
    by simp_all
qed

lemma barWidth_nonneg: "0 \<le> barWidth now width"
  by (simp add: barWidth_def Let_def)

lemma fillWidth_bounds:
  assumes "valid_clock now"
  shows "0 \<le> fillWidth now width" and "fillWidth now width \<le> barWidth now width"
proof -
  define B where "B = barWidth now width"
  define fb where "fb = f64_of_int B"
  define p where "p = percent now"
  define z where "z = fb * p"
  define u :: rat where "u = 2 powi (- 53)"
  have B0: "0 \<le> B" by (simp add: B_def barWidth_nonneg)
  note pb = percent_bounds [OF assms, folded p_def u_def]
  have fb0: "0 \<le> fb" unfolding fb_def f64_of_int_def using B0 by (intro fl64_nonneg) simp
  have z0: "0 \<le> z" unfolding z_def using fb0 pb(1) by (rule mult_nonneg_nonneg)
  have fz0: "0 \<le> fl64 z" using z0 by (rule fl64_nonneg)
  have fw: "fillWidth now width = \<lfloor>fl64 z\<rfloor>"
    using fz0 by (simp add: fillWidth_def int_of_f64_def z_def fb_def p_def B_def)
  show "0 \<le> fillWidth now width"
    unfolding fw using fz0 by simp
  have "fl64 z \<le> of_int B"
  proof (cases "B = 0 \<or> p = 0")
    case True
    then have "z = 0" by (auto simp: z_def fb_def f64_of_int_def fl64_def)
    then show ?thesis using B0 by (simp add: fl64_def)
  next
    case False
    then have B1: "1 \<le> B" and p1: "1 / 172800 \<le> p" using B0 pb(3) by auto
    have u0: "0 \<le> u" and u2: "u \<le> 1 / 2" by (simp_all add: u_def)
    have "(of_int 1 :: rat) \<le> of_int B" using B1 by (simp only: of_int_le_iff)
    then have Br: "(1::rat) \<le> of_int B" by simp
    then have "2 powi (- 1022) \<le> \<bar>of_int B :: rat\<bar>" by simp
    from fl64_rel_error [OF this] have eb: "\<bar>fb - of_int B\<bar> \<le> of_int B * u"
      using Br by (simp add: fb_def f64_of_int_def u_def)
    note ebb = abs_err_bounds [OF eb]
    have fb_hi: "fb \<le> of_int B * (1 + u)" by (rule ebb(1))
    have "of_int B * (1 / 2) \<le> of_int B * (1 - u)"
      using Br u2 by (intro mult_left_mono) simp_all
    also have "\<dots> \<le> fb" by (rule ebb(2))
    finally have fb_lo: "1 / 2 \<le> fb" using Br by simp
    have "1 / 2 * (1 / 172800) \<le> fb * p"
      using fb_lo p1 by (intro mult_mono) simp_all
    then have zlo: "1 / 345600 \<le> z" by (simp add: z_def)
    then have "2 powi (- 1022) \<le> \<bar>z\<bar>" by simp
    from fl64_rel_error [OF this] have ez: "\<bar>fl64 z - z\<bar> \<le> z * u"
      using z0 by (simp add: u_def)
    have "fl64 z \<le> z * (1 + u)"
      by (rule abs_err_bounds(1) [OF ez])
    also have "z \<le> of_int B * (1 + u) * (86399 / 86400 * (1 + u))"
      unfolding z_def using fb_hi pb(2) pb(1) Br u0 by (intro mult_mono) simp_all
    then have "z * (1 + u) \<le> of_int B * (1 + u) * (86399 / 86400 * (1 + u)) * (1 + u)"
      using u0 by (intro mult_right_mono) simp_all
    also have "\<dots> = of_int B * (86399 / 86400 * (1 + u) * (1 + u) * (1 + u))"
      by (simp add: algebra_simps)
    also have "\<dots> \<le> of_int B * 1"
    proof -
      have "86399 / 86400 * (1 + u) * (1 + u) * (1 + u) \<le> 1"
        unfolding u_def by (rule ulp_bounds(3))
      then show ?thesis using Br by (intro mult_left_mono) simp_all
    qed
    finally show ?thesis by simp
  qed
  then show "fillWidth now width \<le> barWidth now width"
    unfolding fw B_def by (simp add: floor_le_iff)
qed







section \<open>Day progress at the marked instants\<close>

lemma sdiv_nonneg: "0 \<le> a \<Longrightarrow> 0 < b \<Longrightarrow> a sdiv b = a div (b::int)"
  by (simp add: signed_divide_int_def sgn_if)

lemma smod_nonneg: "0 \<le> a \<Longrightarrow> 0 < b \<Longrightarrow> a smod b = a mod (b::int)"
  by (simp add: signed_modulo_int_def sgn_if)

lemma timeRemaining_eq:
  assumes "valid_clock now"
  shows "timeRemaining now =
           '' '' @ itoa ((86400 - (Hour now * 3600 + Minute now * 60 + Second now)) div 3600) @ ''h ''
           @ itoa ((86400 - (Hour now * 3600 + Minute now * 60 + Second now)) mod 3600 div 60)
           @ ''m left''"
proof -
  have r: "0 \<le> remainingSecs now"
    using secondsElapsed_exact(3) [OF assms] by (simp add: remainingSecs_exact [OF assms])
  have "0 \<le> remainingSecs now mod 3600" by simp
  then show ?thesis
    using r by (simp add: timeRemaining_def sdiv_nonneg smod_nonneg remainingSecs_exact [OF assms])
qed

lemma fl64_half: "fl64 (1 / 2) = 1 / 2"
  by (simp add: fl64_def ilog2_def compute_floorlog rne_def)

text \<open>
  The text the source formats starts with a space, which separates it from the closing
  bracket of the bar and is counted in its length: at midnight it is not
  \<open>24h 0m left\<close> but \<open> 24h 0m left\<close>.
\<close>

theorem remaining_text_counterexample:
  "timeRemaining (clock_at 0 0 0) \<noteq> ''24h 0m left''
   \<and> timeRemaining (clock_at 23 59 59) \<noteq> ''0h 0m left''"
proof -
  have v: "valid_clock (clock_at 0 0 0)" "valid_clock (clock_at 23 59 59)"
    by (simp_all add: valid_clock_def clock_at_def)
  show ?thesis
    by (simp add: timeRemaining_eq [OF v(1)] timeRemaining_eq [OF v(2)])
qed

text \<open>
  C5, amended.  For an instant with a valid clock: at 00:00:00 the elapsed fraction is 0
  and the remaining-time text is \<open> 24h 0m left\<close>; at 12:00:00 the fraction is exactly one
  half; at 23:59:59 the text is \<open> 0h 0m left\<close>; in general the text is a space followed
  by \<open>{H}h {M}m left\<close>, where \<open>H\<close> and \<open>M\<close> are the whole hours and the whole minutes
  of 86400 minus the seconds elapsed since midnight.
\<close>

theorem day_progress_points:
  assumes "valid_clock now"
  shows "(Hour now = 0 \<and> Minute now = 0 \<and> Second now = 0 \<longrightarrow>
            percent now = 0 \<and> timeRemaining now = '' 24h 0m left'')
       \<and> (Hour now = 12 \<and> Minute now = 0 \<and> Second now = 0 \<longrightarrow> percent now = 1 / 2)
       \<and> (Hour now = 23 \<and> Minute now = 59 \<and> Second now = 59 \<longrightarrow>
            timeRemaining now = '' 0h 0m left'')
       \<and> timeRemaining now =
           '' '' @ itoa ((86400 - (Hour now * 3600 + Minute now * 60 + Second now)) div 3600) @ ''h ''
           @ itoa ((86400 - (Hour now * 3600 + Minute now * 60 + Second now)) mod 3600 div 60)
           @ ''m left''"
proof (intro conjI impI)
  note se = secondsElapsed_exact(1) [OF assms]
  note tr = timeRemaining_eq [OF assms]
  {
    assume h: "Hour now = 0 \<and> Minute now = 0 \<and> Second now = 0"
    then show "percent now = 0"
      by (simp add: percent_def se totalSeconds_def fl64_def)
    from h show "timeRemaining now = '' 24h 0m left''"
      by (simp add: tr itoa_def nat_digits.simps digit_char_def)
  }
  {
    assume h: "Hour now = 12 \<and> Minute now = 0 \<and> Second now = 0"
    then show "percent now = 1 / 2"
      by (simp add: percent_def se totalSeconds_def fl64_half)
  }
  {
    assume h: "Hour now = 23 \<and> Minute now = 59 \<and> Second now = 59"
    then show "timeRemaining now = '' 0h 0m left''"
      by (simp add: tr itoa_def nat_digits.simps digit_char_def)
  }
  show "timeRemaining now =
           '' '' @ itoa ((86400 - (Hour now * 3600 + Minute now * 60 + Second now)) div 3600) @ ''h ''
           @ itoa ((86400 - (Hour now * 3600 + Minute now * 60 + Second now)) mod 3600 div 60)
           @ ''m left''"
    by (rule tr)
qed

theorem day_progress_points_witness:
  "valid_clock (clock_at 0 0 0) \<and> valid_clock (clock_at 12 0 0) \<and> valid_clock (clock_at 23 59 59)
   \<and> percent (clock_at 0 0 0) = 0 \<and> timeRemaining (clock_at 0 0 0) = '' 24h 0m left''
   \<and> percent (clock_at 12 0 0) = 1 / 2
   \<and> timeRemaining (clock_at 23 59 59) = '' 0h 0m left''"
proof -
  have v: "valid_clock (clock_at 0 0 0)" "valid_clock (clock_at 12 0 0)"
    "valid_clock (clock_at 23 59 59)"
    by (simp_all add: valid_clock_def clock_at_def)
  from day_progress_points [OF v(1)] day_progress_points [OF v(2)] day_progress_points [OF v(3)]
  show ?thesis
    using v by (simp add: clock_at_def)
qed

section \<open>The blinking separator\<close>

lemma nat_digits_one: "n < 10 \<Longrightarrow> nat_digits n = [digit_char n]"
  by (simp add: nat_digits.simps)

lemma nat_digits_two:
  "\<not> n < 10 \<Longrightarrow> n < 100 \<Longrightarrow> nat_digits n = [digit_char (n div 10), digit_char (n mod 10)]"
  by (subst nat_digits.simps) (simp add: nat_digits_one)

lemma length_nat_digits_two: "n < 100 \<Longrightarrow> length (nat_digits n) = (if n < 10 then 1 else 2)"
  by (simp add: nat_digits_one nat_digits_two)

lemma length_appendInt_two:
  assumes "0 \<le> x" "x < 100"
  shows "length (appendInt x 2) = 2"
proof -
  have "nat \<bar>x\<bar> < 100" using assms by simp
  from length_nat_digits_two [OF this] show ?thesis
    using assms by (simp add: appendInt_def Let_def)
qed

lemma hour12_range:
  assumes "0 \<le> Hour t" "Hour t < 24"
  shows "1 \<le> hour12 t" and "hour12 t \<le> 12"
  using assms by (simp_all add: hour12_def Let_def smod_nonneg) presburger+

lemma Format_blink_colon:
  "Format ''03:04 PM'' t =
     appendInt (hour12 t) 2 @ '':'' @ appendInt (Minute t) 2 @ '' ''
       @ (if Hour t \<ge> 12 then ''PM'' else ''AM'')"
  by (simp add: Format.simps std_chunk_at_def starts_with_def)

lemma Format_blink_space:
  "Format ''03 04 PM'' t =
     appendInt (hour12 t) 2 @ '' '' @ appendInt (Minute t) 2 @ '' ''
       @ (if Hour t \<ge> 12 then ''PM'' else ''AM'')"
  by (simp add: Format.simps std_chunk_at_def starts_with_def)

lemma Format_plain_time:
  "Format ''03:04:05 PM'' t =
     appendInt (hour12 t) 2 @ '':'' @ appendInt (Minute t) 2 @ '':'' @ appendInt (Second t) 2
       @ '' '' @ (if Hour t \<ge> 12 then ''PM'' else ''AM'')"
  by (simp add: Format.simps std_chunk_at_def starts_with_def)

lemma blink_format_parity:
  assumes "0 \<le> Second t"
  shows "blink_format t = (if even (Second t) then ''03:04 PM'' else ''03 04 PM'')"
  using assms by (simp add: blink_format_def smod_nonneg Let_def even_iff_mod_2_eq_zero)

lemma differ_at_only:
  assumes "length pre = k"
  shows "length (pre @ a # post) = length (pre @ b # post)
       \<and> (pre @ a # post) ! k = a \<and> (pre @ b # post) ! k = b
       \<and> (\<forall>i < length (pre @ a # post). i \<noteq> k \<longrightarrow>
             (pre @ a # post) ! i = (pre @ b # post) ! i)"
  using assms by (auto simp: nth_append nth_Cons split: nat.splits)

text \<open>
  C7.  For two instants with valid clocks that are equal except for the second, the
  first with an even and the other with an odd second: the layout of the art-mode time
  is \<open>03:04 PM\<close> for the first and \<open>03 04 PM\<close> for the other, both formatted times
  have eight characters, the character at index 2 (between hours and minutes) is a colon
  for the even and a space for the odd second, and every other character is the same.
\<close>

theorem blink_changes_only_separator:
  assumes "valid_clock t1" "valid_clock t2"
    and "t2 = t1\<lparr>Second := Second t2\<rparr>"
    and "even (Second t1)" "odd (Second t2)"
  shows "blink_format t1 = ''03:04 PM'' \<and> blink_format t2 = ''03 04 PM''
       \<and> length (Format (blink_format t1) t1) = 8
       \<and> length (Format (blink_format t2) t2) = 8
       \<and> Format (blink_format t1) t1 ! 2 = CHR '':''
       \<and> Format (blink_format t2) t2 ! 2 = CHR '' ''
       \<and> (\<forall>i < 8. i \<noteq> 2 \<longrightarrow> Format (blink_format t1) t1 ! i = Format (blink_format t2) t2 ! i)"
proof -
  define pre where "pre = appendInt (hour12 t1) 2"
  define post where "post = appendInt (Minute t1) 2 @ '' '' @ (if Hour t1 \<ge> 12 then ''PM'' else ''AM'')"
  from assms(3) have same: "Hour t2 = Hour t1" "Minute t2 = Minute t1"
    by (metis instant.select_convs instant.surjective instant.update_convs(7))+
  then have h12: "hour12 t2 = hour12 t1" by (simp add: hour12_def)
  have s1: "0 \<le> Second t1" and s2: "0 \<le> Second t2"
    using assms(1,2) by (simp_all add: valid_clock_def)
  have b1: "blink_format t1 = ''03:04 PM''" and b2: "blink_format t2 = ''03 04 PM''"
    using assms(4,5) by (simp_all add: blink_format_parity [OF s1] blink_format_parity [OF s2])
  have hr: "0 \<le> hour12 t1" "hour12 t1 < 100"
    using hour12_range [of t1] assms(1) by (simp_all add: valid_clock_def)
  have lpre: "length pre = 2"
    unfolding pre_def using hr by (rule length_appendInt_two)
  have lmin: "length (appendInt (Minute t1) 2) = 2"
    using assms(1) by (intro length_appendInt_two) (simp_all add: valid_clock_def)
  have lpost: "length post = 5" by (simp add: post_def lmin)
  have f1: "Format (blink_format t1) t1 = pre @ CHR '':'' # post"
    by (simp add: b1 Format_blink_colon pre_def post_def)
  have f2: "Format (blink_format t2) t2 = pre @ CHR '' '' # post"
    by (simp add: b2 Format_blink_space pre_def post_def same h12)
  note d = differ_at_only [OF lpre, where a = "CHR '':''" and post = post and b = "CHR '' ''"]
  have len: "length (pre @ CHR '':'' # post) = 8" by (simp add: lpre lpost)
  show ?thesis
    unfolding f1 f2 using b1 b2 d len by simp
qed

theorem blink_changes_only_separator_witness:
  "Format (blink_format (clock_at 15 4 4)) (clock_at 15 4 4) = ''03:04 PM''
   \<and> Format (blink_format (clock_at 15 4 5)) (clock_at 15 4 5) = ''03 04 PM''"
proof -
  have v: "valid_clock (clock_at 15 4 4)" "valid_clock (clock_at 15 4 5)"
    "clock_at 15 4 5 = (clock_at 15 4 4)\<lparr>Second := Second (clock_at 15 4 5)\<rparr>"
    "even (Second (clock_at 15 4 4))" "odd (Second (clock_at 15 4 5))"
    by (simp_all add: valid_clock_def clock_at_def)
  from blink_changes_only_separator [OF v]
  have b: "blink_format (clock_at 15 4 4) = ''03:04 PM''" "blink_format (clock_at 15 4 5) = ''03 04 PM''"
    by simp_all
  show ?thesis
    unfolding b
    by (simp add: Format_blink_colon Format_blink_space)
       (simp add: clock_at_def appendInt_def hour12_def nat_digits.simps digit_char_def signed_modulo_int_def)
qed

section \<open>The two modes of the cell renderer\<close>

lemma getDayProgressBar_returns:
  assumes "valid_clock now"
  shows "\<exists>bar. getDayProgressBar now width = Inr bar"
  using fillWidth_bounds [OF assms, of width]
  by (simp add: getDayProgressBar_def Repeat_def)

lemma UpdateViewTime_plain:
  assumes "getDayProgressBar now width = Inr bar" "height < 8"
  shows "UpdateViewTime StringWidth now width height =
           Inr [Clear,
                Fprint (LF # CenterDate StringWidth (Format ''03:04:05 PM'' now) width),
                Fprint (LF # CenterDate StringWidth (Format ''Mon, Jan 2'' now) width),
                SetCursor 0 (height - 1),
                Fprint bar]"
  using assms by (simp add: UpdateViewTime_def)



text \<open>
  C10.  In plain-text mode (height below 8) the renderer writes, for every instant with
  a valid clock, whatever the parity of its second, the time formatted with the fixed
  layout \<open>03:04:05 PM\<close>: two digits, a colon, two digits, a colon, two digits, a space
  and the half of the day; the blink layout does not occur in what it writes.
\<close>

theorem plain_text_time_keeps_colons:
  assumes "valid_clock now" "height < 8"
  shows "\<exists>bar. UpdateViewTime StringWidth now width height =
           Inr [Clear,
                Fprint (LF # CenterDate StringWidth (Format ''03:04:05 PM'' now) width),
                Fprint (LF # CenterDate StringWidth (Format ''Mon, Jan 2'' now) width),
                SetCursor 0 (height - 1),
                Fprint bar]
         \<and> Format ''03:04:05 PM'' now =
             appendInt (hour12 now) 2 @ '':'' @ appendInt (Minute now) 2 @ '':''
               @ appendInt (Second now) 2 @ '' '' @ (if Hour now \<ge> 12 then ''PM'' else ''AM'')
         \<and> length (Format ''03:04:05 PM'' now) = 11
         \<and> Format ''03:04:05 PM'' now ! 2 = CHR '':''
         \<and> Format ''03:04:05 PM'' now ! 5 = CHR '':''"
proof -
  from getDayProgressBar_returns [OF assms(1)] obtain bar
    where bar: "getDayProgressBar now width = Inr bar" ..
  have hr: "0 \<le> hour12 now" "hour12 now < 100"
    using hour12_range [of now] assms(1) by (simp_all add: valid_clock_def)
  have l1: "length (appendInt (hour12 now) 2) = 2"
    using hr by (rule length_appendInt_two)
  have l2: "length (appendInt (Minute now) 2) = 2"
    using assms(1) by (intro length_appendInt_two) (simp_all add: valid_clock_def)
  have l3: "length (appendInt (Second now) 2) = 2"
    using assms(1) by (intro length_appendInt_two) (simp_all add: valid_clock_def)
  have "length (Format ''03:04:05 PM'' now) = 11"
    "Format ''03:04:05 PM'' now ! 2 = CHR '':''"
    "Format ''03:04:05 PM'' now ! 5 = CHR '':''"
    by (simp_all add: Format_plain_time l1 l2 l3 nth_append)
  with UpdateViewTime_plain [OF bar assms(2)] Format_plain_time [of now]
  show ?thesis by blast
qed

theorem plain_text_time_keeps_colons_witness:
  "valid_clock (clock_at 15 4 5) \<and> odd (Second (clock_at 15 4 5))
   \<and> (\<exists>bar. UpdateViewTime narrow_width (clock_at 15 4 5) 40 7 =
           Inr [Clear,
                Fprint (LF # replicate 14 CHR '' '' @ ''03:04:05 PM''),
                Fprint (LF # replicate 14 CHR '' '' @ ''Sat, Oct 31''),
                SetCursor 0 6,
                Fprint bar])"
proof -
  have v: "valid_clock (clock_at 15 4 5)" by (simp add: valid_clock_def clock_at_def)
  have f1: "Format ''03:04:05 PM'' (clock_at 15 4 5) = ''03:04:05 PM''"
    by (simp add: Format_plain_time)
       (simp add: clock_at_def appendInt_def hour12_def nat_digits.simps digit_char_def signed_modulo_int_def)
  have f2: "Format ''Mon, Jan 2'' (clock_at 15 4 5) = ''Sat, Oct 31''"
    by (simp add: Format.simps std_chunk_at_def starts_with_def startsWithLowerCase_def
          clock_at_def appendInt_def nat_digits.simps digit_char_def)
  have r: "Replace style_markers ''03:04:05 PM'' = ''03:04:05 PM''"
    "Replace style_markers ''Sat, Oct 31'' = ''Sat, Oct 31''"
    by (simp_all add: Replace.simps style_markers_def starts_with_def ESC_def)
  have c: "CenterDate narrow_width ''03:04:05 PM'' 40 = replicate 14 CHR '' '' @ ''03:04:05 PM''"
    "CenterDate narrow_width ''Sat, Oct 31'' 40 = replicate 14 CHR '' '' @ ''Sat, Oct 31''"
    by (simp_all add: CenterDate_def r narrow_width_def rune_count_def signed_divide_int_def)
  have o: "odd (Second (clock_at 15 4 5))" by (simp add: clock_at_def)
  have "(7::int) < 8" by simp
  from plain_text_time_keeps_colons [OF v this, of narrow_width 40]
  obtain bar where "UpdateViewTime narrow_width (clock_at 15 4 5) 40 7 =
           Inr [Clear,
                Fprint (LF # CenterDate narrow_width (Format ''03:04:05 PM'' (clock_at 15 4 5)) 40),
                Fprint (LF # CenterDate narrow_width (Format ''Mon, Jan 2'' (clock_at 15 4 5)) 40),
                SetCursor 0 (7 - 1),
                Fprint bar]"
    by blast
  then have "UpdateViewTime narrow_width (clock_at 15 4 5) 40 7 =
           Inr [Clear,
                Fprint (LF # replicate 14 CHR '' '' @ ''03:04:05 PM''),
                Fprint (LF # replicate 14 CHR '' '' @ ''Sat, Oct 31''),
                SetCursor 0 6,
                Fprint bar]"
    by (simp only: f1 f2 c) simp
  with v o show ?thesis by blast
qed







section \<open>Centering pads on the left\<close>

lemma Replace_bold_AB:
  "Replace style_markers (ESC # ''[1mAB'' @ ESC # ''[0m'') = ''AB''"
  by (simp add: Replace.simps style_markers_def starts_with_def ESC_def)

text \<open>
  C8.  Both centering functions return their argument with
  \<open>max 0 ((width - w) / 2)\<close> spaces in front (the division truncating), and nothing is
  cut off; \<open>w\<close> is the display width of the text for \<^verbatim>\<open>CenterTime\<close> and the display width
  of the text without the five style markers for \<^verbatim>\<open>CenterDate\<close>, which still returns the
  text with its markers.  So \<open>AB\<close>, of width 2, centred in 10 gets four spaces, and so
  does any styled text whose stripped form has width 2, such as \<open>AB\<close> in bold.
\<close>

theorem centering_pads_left:
  "CenterTime StringWidth s width =
     replicate (nat (max 0 ((width - StringWidth s) sdiv 2))) CHR '' '' @ s
   \<and> CenterDate StringWidth s width =
     replicate (nat (max 0 ((width - StringWidth (Replace style_markers s)) sdiv 2))) CHR '' '' @ s
   \<and> (StringWidth ''AB'' = 2 \<longrightarrow> CenterTime StringWidth ''AB'' 10 = ''    AB'')
   \<and> (StringWidth (Replace style_markers s) = 2 \<longrightarrow>
        CenterDate StringWidth s 10 = ''    '' @ s)
   \<and> (StringWidth ''AB'' = 2 \<longrightarrow>
        CenterDate StringWidth (ESC # ''[1mAB'' @ ESC # ''[0m'') 10
          = ''    '' @ ESC # ''[1mAB'' @ ESC # ''[0m'')"
proof -
  have four: "(8::int) sdiv 2 = 4" by (simp add: signed_divide_int_def)
  have r4: "replicate 4 CHR '' '' = ''    ''" by (simp add: numeral_eq_Suc)
  have a: "CenterTime StringWidth s width =
     replicate (nat (max 0 ((width - StringWidth s) sdiv 2))) CHR '' '' @ s" for s
    by (simp add: CenterTime_def Let_def max_def)
  have b: "CenterDate StringWidth s width =
     replicate (nat (max 0 ((width - StringWidth (Replace style_markers s)) sdiv 2))) CHR '' '' @ s" for s
    by (simp add: CenterDate_def Let_def max_def)
  have c: "StringWidth ''AB'' = 2 \<longrightarrow> CenterTime StringWidth ''AB'' 10 = ''    AB''"
    by (simp add: CenterTime_def Let_def four r4)
  have d: "StringWidth (Replace style_markers s) = 2 \<longrightarrow>
        CenterDate StringWidth s 10 = ''    '' @ s" for s
    by (simp add: CenterDate_def Let_def four r4)
  have e: "StringWidth ''AB'' = 2 \<longrightarrow>
        CenterDate StringWidth (ESC # ''[1mAB'' @ ESC # ''[0m'') 10
          = ''    '' @ ESC # ''[1mAB'' @ ESC # ''[0m''"
    using d [of "ESC # ''[1mAB'' @ ESC # ''[0m''"] unfolding Replace_bold_AB by blast
  from a [of s] b [of s] c d [of s] e show ?thesis by blast
qed

theorem centering_pads_left_witness:
  "narrow_width ''AB'' = 2
   \<and> CenterTime narrow_width ''AB'' 10 = ''    AB''
   \<and> CenterDate narrow_width (ESC # ''[1mAB'' @ ESC # ''[0m'') 10
       = ''    '' @ ESC # ''[1mAB'' @ ESC # ''[0m''
   \<and> CenterTime narrow_width ''ABCDEFGHIJKL'' 10 = ''ABCDEFGHIJKL''"
proof -
  have w: "narrow_width ''AB'' = 2" by (simp add: narrow_width_def rune_count_def)
  have w2: "narrow_width ''ABCDEFGHIJKL'' = 12" by (simp add: narrow_width_def rune_count_def)
  have m: "nat (max 0 ((10 - 12) sdiv (2::int))) = 0" by (simp add: signed_divide_int_def)
  from centering_pads_left [of narrow_width "''AB''" 10]
    centering_pads_left [of narrow_width "''ABCDEFGHIJKL''" 10]
  show ?thesis using w by (simp add: w2 m)
qed

section \<open>The rectangles of the layout\<close>






section \<open>Tiling the grid\<close>














end
